theory Spec2Isabelle
  imports Main "HOL-Library.Product_Lexorder"
begin

section \<open>The task table (src/db.js)\<close>

text \<open>
  One row of the table \<^verbatim>\<open>tasks\<close> created by \<^verbatim>\<open>createTablesSQL\<close>. The column
  \<^verbatim>\<open>id\<close> is called \<open>task_id\<close> here, since \<open>id\<close> is the identity function of HOL.
  The status column is TEXT; the four constructors are the four strings the module
  ever writes. \<^verbatim>\<open>CURRENT_TIMESTAMP\<close> has a resolution of one second, so a timestamp is
  a number of seconds. The nullable columns are options. The INTEGER columns are
  integers, with no bound: they stand for the values up to \<open>2 ^ 53\<close> in absolute value,
  which SQLite stores and JavaScript reads exactly (the driver hands every number to
  JavaScript as a double).
\<close>

datatype status = Pending | Processing | Completed | Failed

type_synonym timestamp = nat

record task =
  task_id :: nat
  name :: string
  priority :: int
  status :: status
  payload :: "string option"
  max_retries :: int
  retry_count :: int
  error_message :: "string option"
  created_at :: timestamp
  updated_at :: timestamp
  started_at :: "timestamp option"
  completed_at :: "timestamp option"

text \<open>
  The database: the rows in rowid order, and the counter that \<^verbatim>\<open>AUTOINCREMENT\<close>
  keeps in \<^verbatim>\<open>sqlite_sequence\<close> (the largest rowid ever handed out). With it goes
  what the connection of the process remembers: the rowid of its last INSERT, which is
  0 before the first.
\<close>

record store =
  tasks :: "task list"
  seq :: nat
  last_insert_rowid :: nat

text \<open>
  What the environment decides for one statement sent to the driver: the value
  \<^verbatim>\<open>CURRENT_TIMESTAMP\<close> has when it runs, and whether the driver reports an error
  (then with which message). A statement that fails changes nothing.
\<close>

record db_call =
  current_timestamp :: timestamp
  failure :: "string option"

text \<open>
  The driver rejects with an error of which only the \<^verbatim>\<open>message\<close> is ever read: a
  rejection of \<^verbatim>\<open>dbRun\<close>, \<^verbatim>\<open>dbGet\<close> and \<^verbatim>\<open>dbAll\<close> is that string. Where an error
  of another kind can arise it is an \<open>error\<close>: \<open>Error m\<close> has the message \<open>m\<close>, and
  \<open>TypeError\<close> is the one the engine raises when \<^verbatim>\<open>incrementRetryCount\<close> reads
  \<^verbatim>\<open>retry_count\<close> of \<^verbatim>\<open>undefined\<close>, or the catch block of \<^verbatim>\<open>executeTask\<close> reads
  \<^verbatim>\<open>message\<close> of \<^verbatim>\<open>null\<close> or \<^verbatim>\<open>undefined\<close>.
\<close>

datatype error = Error string | TypeError

text \<open>
  \<^verbatim>\<open>dbRun\<close>, \<^verbatim>\<open>dbGet\<close> and \<^verbatim>\<open>dbAll\<close>: the promise wrappers. \<^verbatim>\<open>dbRun\<close> resolves
  to an object with \<^verbatim>\<open>this.lastID\<close> and \<^verbatim>\<open>this.changes\<close>; nothing reads the second,
  and the value here is the first. The driver reads it from the connection after the
  statement, whatever the statement was: after an UPDATE it is the rowid of the last
  INSERT before it. (Only \<^verbatim>\<open>addTask\<close> reads it, right after its INSERT.)
\<close>

definition dbRun :: "db_call \<Rightarrow> (timestamp \<Rightarrow> store \<Rightarrow> store) \<Rightarrow> store \<Rightarrow> (string + nat) \<times> store" where
  "dbRun c sql s =
     (case failure c of
        Some m \<Rightarrow> (Inl m, s)
      | None \<Rightarrow> (let s' = sql (current_timestamp c) s in (Inr (last_insert_rowid s'), s')))"

definition dbGet :: "db_call \<Rightarrow> (store \<Rightarrow> 'a option) \<Rightarrow> store \<Rightarrow> string + 'a option" where
  "dbGet c sql s = (case failure c of Some m \<Rightarrow> Inl m | None \<Rightarrow> Inr (sql s))"

definition dbAll :: "db_call \<Rightarrow> (store \<Rightarrow> 'a list) \<Rightarrow> store \<Rightarrow> string + 'a list" where
  "dbAll c sql s = (case failure c of Some m \<Rightarrow> Inl m | None \<Rightarrow> Inr (sql s))"

text \<open>\<^verbatim>\<open>UPDATE tasks SET ... WHERE id = ?\<close>: one statement, applied to the rows it selects.\<close>

definition update_where_id :: "nat \<Rightarrow> (task \<Rightarrow> task) \<Rightarrow> store \<Rightarrow> store" where
  "update_where_id taskId f s =
     s\<lparr>tasks := map (\<lambda>t. if task_id t = taskId then f t else t) (tasks s)\<rparr>"

subsection \<open>JavaScript values\<close>

text \<open>
  The values a payload can be. Numbers are the integers and \<^verbatim>\<open>NaN\<close> (the other
  numbers are truthy, like every non-zero integer). \<open>truthy\<close> is the conversion to
  boolean that \<^verbatim>\<open>payload ? ... : ...\<close> and \<^verbatim>\<open>if (task.payload)\<close> apply.
\<close>

datatype jsvalue =
    JUndefined
  | JNull
  | JBoolean bool
  | JNumber int
  | JNaN
  | JString string
  | JArray "jsvalue list"
  | JObject "(string \<times> jsvalue) list"

fun truthy :: "jsvalue \<Rightarrow> bool" where
  "truthy JUndefined = False"
| "truthy JNull = False"
| "truthy (JBoolean b) = b"
| "truthy (JNumber n) = (n \<noteq> 0)"
| "truthy JNaN = False"
| "truthy (JString s) = (s \<noteq> [])"
| "truthy (JArray _) = True"
| "truthy (JObject _) = True"

text \<open>
  A handler is a function of the payload and the task record that completes or raises.
  What it does besides is outside the repository: a handler is a function on a state
  \<open>'w\<close> of its own (which is not the task table). It may raise any value, and the
  catch block of \<^verbatim>\<open>executeTask\<close> reads \<^verbatim>\<open>error.message\<close> of it, nothing else:

  \<^item> \<open>With_message m\<close> is a value whose \<^verbatim>\<open>message\<close> is the string \<open>m\<close>, as every
    \<^verbatim>\<open>Error\<close> is;
  \<^item> \<open>Without_message\<close> is a value that has no \<^verbatim>\<open>message\<close> (a string, a number, an
    object without that property): \<^verbatim>\<open>error.message\<close> is \<^verbatim>\<open>undefined\<close>;
  \<^item> \<open>Null_or_undefined\<close> is \<^verbatim>\<open>null\<close> or \<^verbatim>\<open>undefined\<close>, of which reading
    \<^verbatim>\<open>message\<close> raises a \<^verbatim>\<open>TypeError\<close>.

  (A \<^verbatim>\<open>message\<close> that is neither a string nor \<^verbatim>\<open>undefined\<close> is left out.)
\<close>

datatype thrown = With_message string | Without_message | Null_or_undefined

datatype outcome = Resolved | Rejected thrown

type_synonym 'w handler = "jsvalue \<Rightarrow> task \<Rightarrow> 'w \<Rightarrow> outcome \<times> 'w"

text \<open>
  What belongs to the JavaScript runtime, not to this repository, is a parameter of the
  model: \<^verbatim>\<open>JSON.stringify\<close>, \<^verbatim>\<open>JSON.parse\<close> (\<open>None\<close> is a \<^verbatim>\<open>SyntaxError\<close>), and
  what a member that an object literal inherits from \<^verbatim>\<open>Object.prototype\<close> does when
  it is called as a handler.
\<close>

record 'w runtime =
  JSON_stringify :: "jsvalue \<Rightarrow> string"
  JSON_parse :: "string \<Rightarrow> jsvalue option"
  inherited :: "string \<Rightarrow> 'w handler"

subsection \<open>The operations\<close>

text \<open>
  \<^verbatim>\<open>addTask(name, priority = 0, payload = null, maxRetries = 3)\<close>. An argument left
  out is \<open>None\<close> (\<open>JUndefined\<close> for the payload) and takes its default. The new rowid is
  one more than the largest that ever existed.
\<close>

definition next_rowid :: "store \<Rightarrow> nat" where
  "next_rowid s = Suc (fold max (map task_id (tasks s)) (seq s))"

definition insert_task :: "string \<Rightarrow> int \<Rightarrow> string option \<Rightarrow> int \<Rightarrow> timestamp \<Rightarrow> store \<Rightarrow> store" where
  "insert_task nm prio text maxRetries now s =
     \<lparr>tasks = tasks s @
        [\<lparr>task_id = next_rowid s, name = nm, priority = prio, status = Pending,
          payload = text, max_retries = maxRetries, retry_count = 0,
          error_message = None, created_at = now, updated_at = now,
          started_at = None, completed_at = None\<rparr>],
      seq = next_rowid s, last_insert_rowid = next_rowid s\<rparr>"

definition addTask ::
  "'w runtime \<Rightarrow> db_call \<Rightarrow> string \<Rightarrow> int option \<Rightarrow> jsvalue \<Rightarrow> int option \<Rightarrow> store \<Rightarrow> (string + nat) \<times> store" where
  "addTask rt c nm priority_arg payload_arg maxRetries_arg s =
     (let priority = (case priority_arg of None \<Rightarrow> 0 | Some p \<Rightarrow> p);
          payload = (if payload_arg = JUndefined then JNull else payload_arg);
          maxRetries = (case maxRetries_arg of None \<Rightarrow> 3 | Some m \<Rightarrow> m)
      in dbRun c
           (insert_task nm priority
              (if truthy payload then Some (JSON_stringify rt payload) else None)
              maxRetries)
           s)"

text \<open>
  \<^verbatim>\<open>getPendingTasks(limit = 10)\<close>:
  \<^verbatim>\<open>SELECT * FROM tasks WHERE status = 'pending' AND retry_count < max_retries
  ORDER BY priority DESC, created_at ASC LIMIT ?\<close>.
  The sort is on the pair (\<open>- priority\<close>, \<open>created_at\<close>) in lexicographic order. Rows
  that agree on both come in rowid order here; SQLite leaves their order open, and no
  theorem below depends on it. A negative \<^verbatim>\<open>LIMIT\<close> is no limit in SQLite.
\<close>

definition eligible :: "task \<Rightarrow> bool" where
  "eligible t \<longleftrightarrow> status t = Pending \<and> retry_count t < max_retries t"

definition order_key :: "task \<Rightarrow> int \<times> timestamp" where
  "order_key t = (- priority t, created_at t)"

text \<open>
  \<open>comes_before a b\<close>: the ORDER BY clause allows \<open>a\<close> before \<open>b\<close>; \<open>strictly_before a b\<close>:
  it does not allow \<open>b\<close> before \<open>a\<close>.
\<close>

definition comes_before :: "task \<Rightarrow> task \<Rightarrow> bool" where
  "comes_before a b \<longleftrightarrow>
     priority b < priority a \<or> (priority a = priority b \<and> created_at a \<le> created_at b)"

definition strictly_before :: "task \<Rightarrow> task \<Rightarrow> bool" where
  "strictly_before a b \<longleftrightarrow>
     priority b < priority a \<or> (priority a = priority b \<and> created_at a < created_at b)"

definition sql_limit :: "int \<Rightarrow> 'a list \<Rightarrow> 'a list" where
  "sql_limit n rows = (if n < 0 then rows else take (nat n) rows)"

definition select_pending :: "int \<Rightarrow> store \<Rightarrow> task list" where
  "select_pending n s = sql_limit n (sort_key order_key (filter eligible (tasks s)))"

definition getPendingTasks :: "db_call \<Rightarrow> int option \<Rightarrow> store \<Rightarrow> string + task list" where
  "getPendingTasks c limit_arg s =
     (let limit = (case limit_arg of None \<Rightarrow> 10 | Some n \<Rightarrow> n)
      in dbAll c (select_pending limit) s)"

text \<open>
  \<^verbatim>\<open>getTask(taskId)\<close>: \<^verbatim>\<open>SELECT * FROM tasks WHERE id = ?\<close> through \<^verbatim>\<open>dbGet\<close>, which
  gives the first row, or \<open>None\<close> for \<^verbatim>\<open>undefined\<close>.
\<close>

definition row_of :: "nat \<Rightarrow> store \<Rightarrow> task option" where
  "row_of taskId s = find (\<lambda>t. task_id t = taskId) (tasks s)"

definition getTask :: "db_call \<Rightarrow> nat \<Rightarrow> store \<Rightarrow> string + task option" where
  "getTask c taskId s = dbGet c (row_of taskId) s"

text \<open>
  \<^verbatim>\<open>markTaskStarted\<close>:
  \<^verbatim>\<open>SET status = 'processing', started_at = CURRENT_TIMESTAMP, updated_at = CURRENT_TIMESTAMP\<close>.
\<close>

definition markTaskStarted :: "db_call \<Rightarrow> nat \<Rightarrow> store \<Rightarrow> (string + nat) \<times> store" where
  "markTaskStarted c taskId s =
     dbRun c (\<lambda>now. update_where_id taskId
       (\<lambda>t. t\<lparr>status := Processing, started_at := Some now, updated_at := now\<rparr>)) s"

text \<open>
  \<^verbatim>\<open>markTaskCompleted\<close>:
  \<^verbatim>\<open>SET status = 'completed', completed_at = CURRENT_TIMESTAMP, updated_at = CURRENT_TIMESTAMP\<close>.
\<close>

definition markTaskCompleted :: "db_call \<Rightarrow> nat \<Rightarrow> store \<Rightarrow> (string + nat) \<times> store" where
  "markTaskCompleted c taskId s =
     dbRun c (\<lambda>now. update_where_id taskId
       (\<lambda>t. t\<lparr>status := Completed, completed_at := Some now, updated_at := now\<rparr>)) s"

text \<open>
  \<^verbatim>\<open>incrementRetryCount\<close>: the UPDATE
  \<^verbatim>\<open>SET retry_count = retry_count + 1, status = 'pending', error_message = ?,
  updated_at = CURRENT_TIMESTAMP\<close>, then \<^verbatim>\<open>getTask\<close> and \<^verbatim>\<open>task.retry_count\<close>.
  The two awaits are two calls of the driver, and whatever else the process has to do
  (other executions, a poll) runs between them: \<open>meanwhile\<close> is what that does to the
  table, the identity when nothing else runs. The value returned is the \<open>retry_count\<close>
  that \<^verbatim>\<open>getTask\<close> finds.
\<close>

definition increment_update :: "db_call \<Rightarrow> nat \<Rightarrow> string option \<Rightarrow> store \<Rightarrow> (string + nat) \<times> store" where
  "increment_update c taskId errorMessage s =
     dbRun c (\<lambda>now. update_where_id taskId
       (\<lambda>t. t\<lparr>retry_count := retry_count t + 1, status := Pending,
               error_message := errorMessage, updated_at := now\<rparr>)) s"

definition read_retry_count :: "db_call \<Rightarrow> nat \<Rightarrow> store \<Rightarrow> error + int" where
  "read_retry_count c taskId s =
     (case getTask c taskId s of
        Inl m \<Rightarrow> Inl (Error m)
      | Inr None \<Rightarrow> Inl TypeError
      | Inr (Some t) \<Rightarrow> Inr (retry_count t))"

definition incrementRetryCount ::
  "db_call \<Rightarrow> (store \<Rightarrow> store) \<Rightarrow> db_call \<Rightarrow> nat \<Rightarrow> string option \<Rightarrow> store \<Rightarrow>
   (error + int) \<times> store" where
  "incrementRetryCount c1 meanwhile c2 taskId errorMessage s =
     (case increment_update c1 taskId errorMessage s of
        (Inl m, s1) \<Rightarrow> (Inl (Error m), s1)
      | (Inr _, s1) \<Rightarrow> (let s2 = meanwhile s1 in (read_retry_count c2 taskId s2, s2)))"

text \<open>
  \<^verbatim>\<open>markTaskFailed\<close>:
  \<^verbatim>\<open>SET status = 'failed', error_message = ?, updated_at = CURRENT_TIMESTAMP\<close>.
\<close>

definition markTaskFailed :: "db_call \<Rightarrow> nat \<Rightarrow> string option \<Rightarrow> store \<Rightarrow> (string + nat) \<times> store" where
  "markTaskFailed c taskId errorMessage s =
     dbRun c (\<lambda>now. update_where_id taskId
       (\<lambda>t. t\<lparr>status := Failed, error_message := errorMessage, updated_at := now\<rparr>)) s"

section \<open>The queue service (src/queueService.js)\<close>

subsection \<open>The handler registry\<close>

text \<open>
  \<^verbatim>\<open>this.taskHandlers = {}\<close> is an object literal and \<^verbatim>\<open>registerHandler\<close> assigns
  own properties to it: the map \<open>hs\<close> below holds the registered handlers. The read
  \<^verbatim>\<open>this.taskHandlers[task.name]\<close> follows the prototype chain, so for a name that is
  not registered it finds the member of \<^verbatim>\<open>Object.prototype\<close> of that name, when there
  is one, and \<^verbatim>\<open>undefined\<close> otherwise.
\<close>

definition Object_prototype_names :: "string list" where
  "Object_prototype_names =
     [''constructor'', ''__defineGetter__'', ''__defineSetter__'', ''hasOwnProperty'',
      ''__lookupGetter__'', ''__lookupSetter__'', ''isPrototypeOf'',
      ''propertyIsEnumerable'', ''toString'', ''valueOf'', ''__proto__'',
      ''toLocaleString'']"

definition lookup_handler :: "'w runtime \<Rightarrow> (string \<rightharpoonup> 'w handler) \<Rightarrow> string \<Rightarrow> 'w handler option" where
  "lookup_handler rt hs nm =
     (case hs nm of
        Some h \<Rightarrow> Some h
      | None \<Rightarrow> if nm \<in> set Object_prototype_names then Some (inherited rt nm) else None)"

subsection \<open>executeTask\<close>

text \<open>
  The payload handed to the handler:
  \<^verbatim>\<open>let payload = null; if (task.payload) { try { payload = JSON.parse(task.payload) }
  catch (e) { payload = task.payload } }\<close>. A \<^verbatim>\<open>NULL\<close> column and the empty string are
  falsy.
\<close>

definition payload_argument :: "'w runtime \<Rightarrow> task \<Rightarrow> jsvalue" where
  "payload_argument rt t =
     (case payload t of
        None \<Rightarrow> JNull
      | Some text \<Rightarrow>
          if truthy (JString text)
          then (case JSON_parse rt text of Some v \<Rightarrow> v | None \<Rightarrow> JString text)
          else JNull)"

text \<open>The lines the service writes to the console.\<close>

datatype console_line =
    Found_pending nat
  | Polling_error string
  | Processing_task nat string int
  | Task_completed nat
  | Task_failed nat string
  | Permanently_failed nat int
  | Queued_for_retry nat int int

text \<open>
  \<^verbatim>\<open>executeTask\<close> is an async function: it runs up to an \<^verbatim>\<open>await\<close>, and goes on when
  the awaited promise settles; other executions and polls run in between. A \<open>phase\<close>
  is the \<^verbatim>\<open>await\<close> at which an execution stands:

  \<^item> \<open>Starting\<close>: \<^verbatim>\<open>await markTaskStarted(task.id)\<close>;
  \<^item> \<open>Handling h\<close>: \<^verbatim>\<open>await handler(payload, task)\<close>, with the handler that was found;
  \<^item> \<open>Completing\<close>: \<^verbatim>\<open>await markTaskCompleted(task.id)\<close>;
  \<^item> \<open>Recording m\<close>: in the catch block, at the UPDATE of
    \<^verbatim>\<open>await incrementRetryCount(task.id, error.message)\<close>, where \<open>m\<close> is what the
    driver binds for \<^verbatim>\<open>error.message\<close>: the string, or \<^verbatim>\<open>NULL\<close> for \<^verbatim>\<open>undefined\<close>;
  \<^item> \<open>Counting m\<close>: at the \<^verbatim>\<open>getTask\<close> of the same \<^verbatim>\<open>incrementRetryCount\<close>;
  \<^item> \<open>Exhausting m n\<close>: \<^verbatim>\<open>await markTaskFailed(task.id, error.message)\<close>, after
    \<^verbatim>\<open>newRetryCount\<close> = \<open>n\<close> was found to be at least \<^verbatim>\<open>task.max_retries\<close>;
  \<^item> \<open>Finished\<close>: the promise of \<^verbatim>\<open>executeTask\<close> is resolved;
  \<^item> \<open>Crashed e\<close>: it is rejected, an error having left the catch block.
\<close>

datatype 'w phase =
    Starting
  | Handling "'w handler"
  | Completing
  | Recording "string option"
  | Counting "string option"
  | Exhausting "string option" int
  | Finished
  | Crashed error

text \<open>
  An execution works on the task object the poll handed over (\<open>t\<close>, never refreshed),
  on the table, on the handlers' state and on the console.
\<close>

type_synonym 'w execution = "'w phase \<times> store \<times> 'w \<times> console_line list"

text \<open>
  Entering the catch block with the value that was raised: \<^verbatim>\<open>console.error\<close> of
  \<^verbatim>\<open>error.message\<close> (which prints \<^verbatim>\<open>undefined\<close> as that word), then
  \<^verbatim>\<open>incrementRetryCount\<close>. Reading \<^verbatim>\<open>message\<close> of \<^verbatim>\<open>null\<close> or \<^verbatim>\<open>undefined\<close>
  raises inside the catch block, before anything is printed: the error leaves
  \<^verbatim>\<open>executeTask\<close>.
\<close>

fun catch_error :: "task \<Rightarrow> thrown \<Rightarrow> store \<Rightarrow> 'w \<Rightarrow> console_line list \<Rightarrow> 'w execution" where
  "catch_error t (With_message m) s w out =
     (Recording (Some m), s, w, out @ [Task_failed (task_id t) m])"
| "catch_error t Without_message s w out =
     (Recording None, s, w, out @ [Task_failed (task_id t) ''undefined''])"
| "catch_error t Null_or_undefined s w out = (Crashed TypeError, s, w, out)"

text \<open>
  \<^verbatim>\<open>await handler(payload, task)\<close>, and what follows when the handler's promise
  settles: on to \<^verbatim>\<open>markTaskCompleted\<close>, or into the catch block.
\<close>

definition call_handler ::
  "'w handler \<Rightarrow> jsvalue \<Rightarrow> task \<Rightarrow> store \<Rightarrow> 'w \<Rightarrow> console_line list \<Rightarrow> 'w execution" where
  "call_handler h p t s w out =
     (case h p t w of
        (Resolved, w') \<Rightarrow> (Completing, s, w', out)
      | (Rejected e, w') \<Rightarrow> catch_error t e s w' out)"

text \<open>One step: the awaited promise settles, and the code runs up to the next \<^verbatim>\<open>await\<close>.\<close>

fun exec_step ::
  "'w runtime \<Rightarrow> (string \<rightharpoonup> 'w handler) \<Rightarrow> db_call \<Rightarrow> task \<Rightarrow> 'w execution \<Rightarrow> 'w execution" where
  "exec_step rt hs c t (Starting, s, w, out) =
     (case markTaskStarted c (task_id t) s of
        (Inl m, s') \<Rightarrow> catch_error t (With_message m) s' w out
      | (Inr _, s') \<Rightarrow>
          (let out' = out @ [Processing_task (task_id t) (name t) (priority t)] in
           case lookup_handler rt hs (name t) of
             None \<Rightarrow>
               catch_error t (With_message (''No handler registered for task type: '' @ name t))
                 s' w out'
           | Some h \<Rightarrow> (Handling h, s', w, out')))"
| "exec_step rt hs c t (Handling h, s, w, out) = call_handler h (payload_argument rt t) t s w out"
| "exec_step rt hs c t (Completing, s, w, out) =
     (case markTaskCompleted c (task_id t) s of
        (Inl m, s') \<Rightarrow> catch_error t (With_message m) s' w out
      | (Inr _, s') \<Rightarrow> (Finished, s', w, out @ [Task_completed (task_id t)]))"
| "exec_step rt hs c t (Recording m, s, w, out) =
     (case increment_update c (task_id t) m s of
        (Inl e, s') \<Rightarrow> (Crashed (Error e), s', w, out)
      | (Inr _, s') \<Rightarrow> (Counting m, s', w, out))"
| "exec_step rt hs c t (Counting m, s, w, out) =
     (case read_retry_count c (task_id t) s of
        Inl e \<Rightarrow> (Crashed e, s, w, out)
      | Inr newRetryCount \<Rightarrow>
          if newRetryCount \<ge> max_retries t
          then (Exhausting m newRetryCount, s, w, out)
          else (Finished, s, w,
                out @ [Queued_for_retry (task_id t) newRetryCount (max_retries t)]))"
| "exec_step rt hs c t (Exhausting m newRetryCount, s, w, out) =
     (case markTaskFailed c (task_id t) m s of
        (Inl e, s') \<Rightarrow> (Crashed (Error e), s', w, out)
      | (Inr _, s') \<Rightarrow> (Finished, s', w, out @ [Permanently_failed (task_id t) newRetryCount]))"
| "exec_step rt hs c t (Finished, s, w, out) = (Finished, s, w, out)"
| "exec_step rt hs c t (Crashed e, s, w, out) = (Crashed e, s, w, out)"

fun settled :: "'w phase \<Rightarrow> bool" where
  "settled Finished = True"
| "settled (Crashed _) = True"
| "settled _ = False"

text \<open>
  One execution from its call to its end, nothing running in between. \<open>io\<close> is what the
  environment decides for each statement the execution sends to the driver. An
  execution passes at most six awaits.
\<close>

record io =
  on_markTaskStarted :: db_call
  on_markTaskCompleted :: db_call
  on_increment_update :: db_call
  on_getTask :: db_call
  on_markTaskFailed :: db_call

fun call_of :: "io \<Rightarrow> 'w phase \<Rightarrow> db_call" where
  "call_of io Completing = on_markTaskCompleted io"
| "call_of io (Recording _) = on_increment_update io"
| "call_of io (Counting _) = on_getTask io"
| "call_of io (Exhausting _ _) = on_markTaskFailed io"
| "call_of io _ = on_markTaskStarted io"



definition next_await ::
  "'w runtime \<Rightarrow> (string \<rightharpoonup> 'w handler) \<Rightarrow> io \<Rightarrow> task \<Rightarrow> 'w execution \<Rightarrow> 'w execution" where
  "next_await rt hs io t x = exec_step rt hs (call_of io (fst x)) t x"

definition executeTask ::
  "'w runtime \<Rightarrow> (string \<rightharpoonup> 'w handler) \<Rightarrow> io \<Rightarrow> task \<Rightarrow> store \<Rightarrow> 'w \<Rightarrow> console_line list \<Rightarrow> 'w execution" where
  "executeTask rt hs io t s w out = (next_await rt hs io t ^^ 6) (Starting, s, w, out)"

text \<open>
  The same function read from top to bottom, as the source has it: the try block, and
  the catch block with \<^verbatim>\<open>incrementRetryCount\<close> as one call, nothing else running
  between its two awaits. \<open>record_failure\<close> is the catch block after its first line, with
  what the driver binds for \<^verbatim>\<open>error.message\<close>. \<open>executeTask_eq_direct\<close> below proves
  that this is what the steps compute.
\<close>

definition record_failure ::
  "io \<Rightarrow> task \<Rightarrow> string option \<Rightarrow> store \<Rightarrow> 'w \<Rightarrow> console_line list \<Rightarrow> 'w execution" where
  "record_failure io t m s w out =
     (case incrementRetryCount (on_increment_update io) id (on_getTask io) (task_id t) m s of
        (Inl e, s1) \<Rightarrow> (Crashed e, s1, w, out)
      | (Inr newRetryCount, s1) \<Rightarrow>
          if newRetryCount \<ge> max_retries t
          then (case markTaskFailed (on_markTaskFailed io) (task_id t) m s1 of
                  (Inl e, s2) \<Rightarrow> (Crashed (Error e), s2, w, out)
                | (Inr _, s2) \<Rightarrow>
                    (Finished, s2, w, out @ [Permanently_failed (task_id t) newRetryCount]))
          else (Finished, s1, w,
                out @ [Queued_for_retry (task_id t) newRetryCount (max_retries t)]))"

fun catch_block :: "io \<Rightarrow> task \<Rightarrow> thrown \<Rightarrow> store \<Rightarrow> 'w \<Rightarrow> console_line list \<Rightarrow> 'w execution" where
  "catch_block io t (With_message m) s w out =
     record_failure io t (Some m) s w (out @ [Task_failed (task_id t) m])"
| "catch_block io t Without_message s w out =
     record_failure io t None s w (out @ [Task_failed (task_id t) ''undefined''])"
| "catch_block io t Null_or_undefined s w out = (Crashed TypeError, s, w, out)"

definition executeTask_direct ::
  "'w runtime \<Rightarrow> (string \<rightharpoonup> 'w handler) \<Rightarrow> io \<Rightarrow> task \<Rightarrow> store \<Rightarrow> 'w \<Rightarrow> console_line list \<Rightarrow> 'w execution" where
  "executeTask_direct rt hs io t s w out =
     (case markTaskStarted (on_markTaskStarted io) (task_id t) s of
        (Inl m, s1) \<Rightarrow> catch_block io t (With_message m) s1 w out
      | (Inr _, s1) \<Rightarrow>
          (let out1 = out @ [Processing_task (task_id t) (name t) (priority t)] in
           case lookup_handler rt hs (name t) of
             None \<Rightarrow>
               catch_block io t
                 (With_message (''No handler registered for task type: '' @ name t)) s1 w out1
           | Some h \<Rightarrow>
               (case h (payload_argument rt t) t w of
                  (Rejected e, w1) \<Rightarrow> catch_block io t e s1 w1 out1
                | (Resolved, w1) \<Rightarrow>
                    (case markTaskCompleted (on_markTaskCompleted io) (task_id t) s1 of
                       (Inl m, s2) \<Rightarrow> catch_block io t (With_message m) s2 w1 out1
                     | (Inr _, s2) \<Rightarrow>
                         (Finished, s2, w1, out1 @ [Task_completed (task_id t)])))))"

subsection \<open>The service: poll, queue and executions in flight\<close>

text \<open>
  The state of the process: the table, the handlers' state, the fields of the
  \<^verbatim>\<open>QueueService\<close> object, and of its p-queue the jobs that wait (\<open>waiting\<close>, in the
  order of their \<^verbatim>\<open>queue.add\<close>) and the jobs that run (\<open>in_flight\<close>, each a task object
  and the await at which its \<^verbatim>\<open>executeTask\<close> stands). \<open>unhandled\<close> collects the
  executions whose promise was rejected: nothing in the service handles the rejection.
\<close>

record 'w service =
  db :: store
  world :: 'w
  taskHandlers :: "string \<rightharpoonup> 'w handler"
  isRunning :: bool
  concurrency :: nat
  waiting :: "task list"
  in_flight :: "(task \<times> 'w phase) list"
  console :: "console_line list"
  unhandled :: "(task \<times> error) list"

text \<open>
  \<^verbatim>\<open>queueTask(task)\<close>: \<^verbatim>\<open>this.queue.add\<close> of a job that will run
  \<^verbatim>\<open>executeTask(task)\<close>. The job goes to the end of the queue.
\<close>

definition queueTask :: "task \<Rightarrow> 'w service \<Rightarrow> 'w service" where
  "queueTask t d = d\<lparr>waiting := waiting d @ [t]\<rparr>"

text \<open>
  \<^verbatim>\<open>poll()\<close>: \<^verbatim>\<open>getPendingTasks(10)\<close>, then \<^verbatim>\<open>queueTask\<close> for every row, in order.
  Nothing looks whether a row is already waiting in the queue. A query that fails is
  logged. (The timer that calls \<^verbatim>\<open>poll\<close> again is the environment's \<open>Poll\<close> step.)
\<close>

definition poll :: "db_call \<Rightarrow> 'w service \<Rightarrow> 'w service" where
  "poll c d =
     (if \<not> isRunning d then d
      else case getPendingTasks c (Some 10) (db d) of
        Inr pendingTasks \<Rightarrow>
          if length pendingTasks > 0
          then fold queueTask pendingTasks
                 (d\<lparr>console := console d @ [Found_pending (length pendingTasks)]\<rparr>)
          else d
      | Inl m \<Rightarrow> d\<lparr>console := console d @ [Polling_error m]\<rparr>)"

text \<open>
  p-queue starts the job at the head of the queue when fewer than \<open>concurrency\<close> jobs
  run (it may start it later: when the queue is paused, or its rate limit is reached).
\<close>

definition admit :: "'w service \<Rightarrow> 'w service" where
  "admit d =
     (case waiting d of
        [] \<Rightarrow> d
      | t # rest \<Rightarrow>
          if length (in_flight d) < concurrency d
          then d\<lparr>waiting := rest, in_flight := in_flight d @ [(t, Starting)]\<rparr>
          else d)"

text \<open>
  The promise that the \<open>k\<close>-th running execution awaits settles. An execution that has
  ended leaves the queue.
\<close>

definition settle :: "'w runtime \<Rightarrow> nat \<Rightarrow> db_call \<Rightarrow> 'w service \<Rightarrow> 'w service" where
  "settle rt k c d =
     (if k < length (in_flight d)
      then (case in_flight d ! k of (t, ph) \<Rightarrow>
        (case exec_step rt (taskHandlers d) c t (ph, db d, world d, console d) of
           (ph', s', w', out') \<Rightarrow>
             d\<lparr>db := s', world := w', console := out',
               in_flight :=
                 (if settled ph' then take k (in_flight d) @ drop (Suc k) (in_flight d)
                  else (in_flight d)[k := (t, ph')]),
               unhandled :=
                 (case ph' of Crashed e \<Rightarrow> unhandled d @ [(t, e)] | _ \<Rightarrow> unhandled d)\<rparr>))
      else d)"

datatype label = Poll db_call | Admit | Settle nat db_call

fun step :: "'w runtime \<Rightarrow> label \<Rightarrow> 'w service \<Rightarrow> 'w service" where
  "step rt (Poll c) d = poll c d"
| "step rt Admit d = admit d"
| "step rt (Settle k c) d = settle rt k c d"

definition run :: "'w runtime \<Rightarrow> label list \<Rightarrow> 'w service \<Rightarrow> 'w service" where
  "run rt ls d = fold (step rt) ls d"

subsection \<open>The retry ledger\<close>



fun recording :: "'w phase \<Rightarrow> bool" where
  "recording (Counting _) = True"
| "recording (Exhausting _ _) = True"
| "recording _ = False"





section \<open>Concrete inputs\<close>

text \<open>Statements that succeed, or fail, at a given time; an execution whose statements all succeed.\<close>

definition ok :: "timestamp \<Rightarrow> db_call" where
  "ok now = \<lparr>current_timestamp = now, failure = None\<rparr>"

definition rejects :: "string \<Rightarrow> timestamp \<Rightarrow> db_call" where
  "rejects m now = \<lparr>current_timestamp = now, failure = Some m\<rparr>"

definition all_ok :: "timestamp \<Rightarrow> io" where
  "all_ok now =
     \<lparr>on_markTaskStarted = ok now, on_markTaskCompleted = ok now,
      on_increment_update = ok now, on_getTask = ok now, on_markTaskFailed = ok now\<rparr>"

text \<open>
  An excerpt of the runtime: \<^verbatim>\<open>JSON.stringify\<close> and \<^verbatim>\<open>JSON.parse\<close> on the few values
  and texts of the examples below (the examples give \<open>JSON_stringify\<close> no value on which
  the default \<^verbatim>\<open>null\<close> is wrong, and every other text they use is not JSON). The
  inherited members are called as \<^verbatim>\<open>handler(payload, task)\<close>, with no receiver:
  \<^verbatim>\<open>toString\<close> and \<^verbatim>\<open>constructor\<close> return; \<^verbatim>\<open>isPrototypeOf\<close> returns when the payload
  is not an object; \<^verbatim>\<open>__proto__\<close> is the prototype itself, which is not a function;
  the others raise a \<^verbatim>\<open>TypeError\<close> for the missing receiver. The messages are worded
  as V8 words them.
\<close>

fun is_object :: "jsvalue \<Rightarrow> bool" where
  "is_object (JArray _) = True"
| "is_object (JObject _) = True"
| "is_object _ = False"

definition example_runtime :: "nat runtime" where
  "example_runtime =
     \<lparr>JSON_stringify =
        (\<lambda>v. if v = JBoolean True then ''true'' else if v = JObject [] then ''{}'' else ''null''),
      JSON_parse = map_of [(''true'', JBoolean True), (''{}'', JObject []), (''null'', JNull)],
      inherited =
        (\<lambda>nm p t w.
           (if nm = ''toString'' \<or> nm = ''constructor'' then Resolved
            else if nm = ''isPrototypeOf'' \<and> \<not> is_object p then Resolved
            else if nm = ''__proto__''
              then Rejected (With_message ''handler is not a function'')
            else if nm = ''toLocaleString''
              then Rejected (With_message
                     ''Object.prototype.toLocaleString called on null or undefined'')
            else Rejected (With_message ''Cannot convert undefined or null to object''),
            w))\<rparr>"


definition always_fails :: "(nat \<Rightarrow> string) \<Rightarrow> nat handler" where
  "always_fails msg p t calls = (Rejected (With_message (msg calls)), Suc calls)"

text \<open>The row that \<^verbatim>\<open>addTask(name, priority, null, maxRetries)\<close> inserts at time \<open>now\<close>.\<close>

definition new_task :: "nat \<Rightarrow> string \<Rightarrow> int \<Rightarrow> int \<Rightarrow> timestamp \<Rightarrow> task" where
  "new_task i nm prio maxRetries now =
     \<lparr>task_id = i, name = nm, priority = prio, status = Pending, payload = None,
      max_retries = maxRetries, retry_count = 0, error_message = None,
      created_at = now, updated_at = now, started_at = None, completed_at = None\<rparr>"

text \<open>A service that has been started and has nothing queued yet.\<close>

definition started_service :: "(string \<rightharpoonup> 'w handler) \<Rightarrow> nat \<Rightarrow> 'w \<Rightarrow> task list \<Rightarrow> 'w service" where
  "started_service hs n w rows =
     \<lparr>db = \<lparr>tasks = rows, seq = length rows, last_insert_rowid = length rows\<rparr>,
      world = w, taskHandlers = hs, isRunning = True, concurrency = n, waiting = [], in_flight = [], console = [],
      unhandled = []\<rparr>"





text \<open>
  A table for the poll query: three eligible rows, one pending row that has used its
  only retry, and one completed row.
\<close>

definition example_store :: store where
  "example_store =
     \<lparr>tasks =
        [new_task 1 ''email'' 50 3 10,
         new_task 2 ''email'' 100 3 20,
         new_task 3 ''api'' 100 3 15,
         (new_task 4 ''api'' 200 1 5)\<lparr>retry_count := 1\<rparr>,
         (new_task 5 ''image'' 300 2 5)\<lparr>status := Completed\<rparr>],
      seq = 5, last_insert_rowid = 5\<rparr>"

text \<open>
  The life of one task in the table: inserted at time 0, claimed at time 5, requeued
  by a failure at time 6, claimed again at time 9; and, on another path, completed at
  time 7 and marked completed again at time 12.
\<close>

definition inserted :: store where
  "inserted = \<lparr>tasks = [new_task 1 ''email'' 0 3 0], seq = 1, last_insert_rowid = 1\<rparr>"

definition claimed :: store where
  "claimed = snd (markTaskStarted (ok 5) 1 inserted)"

definition requeued :: store where
  "requeued = snd (incrementRetryCount (ok 6) id (ok 6) 1 (Some ''boom'') claimed)"

definition claimed_again :: store where
  "claimed_again = snd (markTaskStarted (ok 9) 1 requeued)"

definition finished :: store where
  "finished = snd (markTaskCompleted (ok 7) 1 claimed)"

definition finished_again :: store where
  "finished_again = snd (markTaskCompleted (ok 12) 1 finished)"










text \<open>A task with one retry whose handler fails, executed once.\<close>

definition job_task :: task where
  "job_task = new_task 1 ''job'' 0 1 0"

definition job_handlers :: "string \<rightharpoonup> nat handler" where
  "job_handlers = [''job'' \<mapsto> always_fails (\<lambda>n. ''boom'')]"


text \<open>
  A task whose name is not registered, but is the name of a member of
  \<^verbatim>\<open>Object.prototype\<close>.
\<close>

definition toString_task :: task where
  "toString_task = new_task 1 ''toString'' 0 3 0"

definition toString_executed :: "nat execution" where
  "toString_executed =
     executeTask example_runtime Map.empty (all_ok 5) toString_task
       \<lparr>tasks = [toString_task], seq = 1, last_insert_rowid = 1\<rparr> 0 []"



text \<open>
  Two executions of one task at a time: a service of concurrency 2 whose only task
  (three retries, a handler that always fails) is polled twice before its first job
  starts. The two executions then take their awaits in turn; the first one is the
  first to send the UPDATE of \<^verbatim>\<open>incrementRetryCount\<close>, and the first to read the count.
\<close>

definition racing_service :: "nat service" where
  "racing_service =
     started_service [''job'' \<mapsto> always_fails (\<lambda>n. ''boom'')] 2 0 [new_task 1 ''job'' 0 3 0]"

definition racing :: "label list" where
  "racing =
     [Poll (ok 1), Poll (ok 2), Admit, Admit,
      Settle 0 (ok 3), Settle 1 (ok 3),
      Settle 0 (ok 4), Settle 1 (ok 4),
      Settle 0 (ok 5), Settle 1 (ok 5),
      Settle 0 (ok 6), Settle 0 (ok 6)]"

text \<open>
  The execution of \<open>job_failed\<close> again, while the driver rejects the UPDATE of
  \<^verbatim>\<open>incrementRetryCount\<close>.
\<close>

definition locked :: io where
  "locked = (all_ok 5)\<lparr>on_increment_update := rejects ''SQLITE_BUSY: database is locked'' 5\<rparr>"

definition record_rejected :: "nat execution" where
  "record_rejected =
     executeTask example_runtime job_handlers locked job_task
       \<lparr>tasks = [job_task], seq = 1, last_insert_rowid = 1\<rparr> 0 []"
text \<open>
  Tasks whose stored payload is JSON, is not JSON, is the empty string, and is absent;
  and a handler that succeeds exactly when it is handed the empty string.
\<close>

definition with_payload :: "string option \<Rightarrow> task" where
  "with_payload text = (new_task 1 ''email'' 0 3 0)\<lparr>payload := text\<rparr>"

definition wants_empty_string :: "nat handler" where
  "wants_empty_string p t w =
     (if p = JString [] then Resolved else Rejected (With_message ''no payload''), w)"

definition empty_store :: store where
  "empty_store = \<lparr>tasks = [], seq = 0, last_insert_rowid = 0\<rparr>"
















section \<open>The poll query\<close>

lemma order_key_le: "order_key a \<le> order_key b \<longleftrightarrow> comes_before a b"
  by (auto simp: order_key_def comes_before_def)

lemma order_key_less: "order_key a < order_key b \<longleftrightarrow> strictly_before a b"
  by (auto simp: order_key_def strictly_before_def)

lemma sorted_candidates:
  "sorted (map order_key (sort_key order_key (filter eligible rows)))"
  by (rule sorted_sort_key)

lemma select_pending_take:
  "select_pending (int n) s = take n (sort_key order_key (filter eligible (tasks s)))"
  by (simp add: select_pending_def sql_limit_def)

lemma select_pending_length:
  "length (select_pending (int n) s) = min n (length (filter eligible (tasks s)))"
  by (simp add: select_pending_take min.commute)

lemma select_pending_eligible:
  "t \<in> set (select_pending k s) \<Longrightarrow> t \<in> set (tasks s) \<and> eligible t"
  by (auto simp: select_pending_def sql_limit_def dest!: in_set_takeD split: if_splits)

lemma select_pending_sorted:
  assumes "i < j" "j < length (select_pending (int n) s)"
  shows "comes_before (select_pending (int n) s ! i) (select_pending (int n) s ! j)"
proof -
  let ?L = "sort_key order_key (filter eligible (tasks s))"
  from assms have j: "j < n" "j < length ?L" by (simp_all add: select_pending_take)
  with assms(1) have "map order_key ?L ! i \<le> map order_key ?L ! j"
    using sorted_candidates[of "tasks s"] by (simp add: sorted_iff_nth_mono del: sorted_sort_key)
  with j assms(1) show ?thesis
    by (simp add: select_pending_take order_key_le)
qed

lemma select_pending_top:
  assumes "a \<in> set (tasks s)" "eligible a" "b \<in> set (select_pending (int n) s)"
    and "strictly_before a b"
  shows "\<exists>i j. i < j \<and> j < length (select_pending (int n) s) \<and>
           select_pending (int n) s ! i = a \<and> select_pending (int n) s ! j = b"
proof -
  let ?L = "sort_key order_key (filter eligible (tasks s))"
  let ?R = "select_pending (int n) s"
  from assms(3) obtain j where j: "j < length ?R" "?R ! j = b" by (auto simp: in_set_conv_nth)
  then have jn: "j < n" "j < length ?L" and Lj: "?L ! j = b"
    by (simp_all add: select_pending_take)
  from assms(1,2) have "a \<in> set ?L" by simp
  then obtain i where i: "i < length ?L" "?L ! i = a" unfolding in_set_conv_nth by blast
  have "i < j"
  proof (rule ccontr)
    assume "\<not> i < j"
    then have "j \<le> i" by simp
    with i(1) have "map order_key ?L ! j \<le> map order_key ?L ! i"
      using sorted_candidates[of "tasks s"] by (simp add: sorted_iff_nth_mono del: sorted_sort_key)
    with i jn Lj have "order_key b \<le> order_key a" by simp
    moreover from assms(4) have "order_key a < order_key b" by (simp add: order_key_less)
    ultimately show False by simp
  qed
  with jn i(2) have "?R ! i = a" by (simp add: select_pending_take)
  with \<open>i < j\<close> j show ?thesis by blast
qed

text \<open>
  Claim C6. For every table and every limit \<open>n\<close> (the default is 10),
  \<^verbatim>\<open>getPendingTasks\<close> returns, unless the driver fails, the first \<open>n\<close> eligible rows in
  the order of the query (all of them when there are fewer): at most \<open>n\<close> rows, each
  pending with \<open>retry_count < max_retries\<close>, ordered by priority descending and then
  by \<open>created_at\<close> ascending. Of two eligible rows, when the one that the order puts
  second is returned, the other one is returned before it: the higher priority first,
  and among equal priorities the earlier created first.
\<close>

theorem getPendingTasks_batch:
  fixes n :: nat
  assumes "(case limit_arg of None \<Rightarrow> 10 | Some k \<Rightarrow> k) = int n"
  shows "(failure c = None \<longrightarrow> (\<exists>rows. getPendingTasks c limit_arg s = Inr rows)) \<and>
         (\<forall>rows. getPendingTasks c limit_arg s = Inr rows \<longrightarrow>
            length rows = min n (length (filter eligible (tasks s))) \<and>
            (\<forall>t \<in> set rows. t \<in> set (tasks s) \<and> status t = Pending \<and>
                              retry_count t < max_retries t) \<and>
            (\<forall>i j. i < j \<and> j < length rows \<longrightarrow> comes_before (rows ! i) (rows ! j)) \<and>
            (\<forall>a b. a \<in> set (tasks s) \<and> eligible a \<and> b \<in> set rows \<and> strictly_before a b \<longrightarrow>
               (\<exists>i j. i < j \<and> j < length rows \<and> rows ! i = a \<and> rows ! j = b)))"
proof -
  have eq: "getPendingTasks c limit_arg s =
      (case failure c of Some m \<Rightarrow> Inl m | None \<Rightarrow> Inr (select_pending (int n) s))"
    using assms by (simp add: getPendingTasks_def dbAll_def)
  have "length rows = min n (length (filter eligible (tasks s))) \<and>
        (\<forall>t \<in> set rows. t \<in> set (tasks s) \<and> status t = Pending \<and> retry_count t < max_retries t) \<and>
        (\<forall>i j. i < j \<and> j < length rows \<longrightarrow> comes_before (rows ! i) (rows ! j)) \<and>
        (\<forall>a b. a \<in> set (tasks s) \<and> eligible a \<and> b \<in> set rows \<and> strictly_before a b \<longrightarrow>
           (\<exists>i j. i < j \<and> j < length rows \<and> rows ! i = a \<and> rows ! j = b))"
    if "rows = select_pending (int n) s" for rows
    unfolding that
    using select_pending_length[of n s] select_pending_eligible[of _ "int n" s]
      select_pending_sorted[of _ _ n s] select_pending_top[of _ s _ n]
    by (auto simp: eligible_def)
  then show ?thesis
    unfolding eq by (auto split: option.splits)
qed

theorem getPendingTasks_batch_witness:
  "\<exists>rows. getPendingTasks (ok 30) (Some 2) example_store = Inr rows \<and> length rows = 2 \<and>
     comes_before (rows ! 0) (rows ! 1) \<and> map task_id rows = [3, 2]"
proof -
  have lim: "(case Some 2 of None \<Rightarrow> 10 | Some k \<Rightarrow> k) = int 2" by simp
  have no_failure: "failure (ok 30) = None" by (simp add: ok_def)
  have three: "length (filter eligible (tasks example_store)) = 3" by code_simp
  have "map_sum id (map task_id) (getPendingTasks (ok 30) (Some 2) example_store) = Inr [3, 2]"
    by code_simp
  then have ids: "map task_id rows = [3, 2]"
    if "getPendingTasks (ok 30) (Some 2) example_store = Inr rows" for rows
    using that by simp
  from getPendingTasks_batch[OF lim, of "ok 30" example_store] no_failure
  obtain rows where rows: "getPendingTasks (ok 30) (Some 2) example_store = Inr rows"
    and len: "length rows = min 2 (length (filter eligible (tasks example_store)))"
    and ord: "\<forall>i j. i < j \<and> j < length rows \<longrightarrow> comes_before (rows ! i) (rows ! j)"
    by blast
  from len three have two: "length rows = 2" by simp
  with ord have "comes_before (rows ! 0) (rows ! 1)" by simp
  with two rows ids[OF rows] show ?thesis by (intro exI[of _ rows]) simp
qed

section \<open>The operations on one row\<close>

lemma find_update_where_id:
  assumes "\<And>t. task_id (f t) = task_id t"
  shows "find (\<lambda>t. task_id t = i) (tasks (update_where_id i f s)) =
         map_option f (find (\<lambda>t. task_id t = i) (tasks s))"
proof -
  have "find (\<lambda>t. task_id t = i) (map (\<lambda>t. if task_id t = i then f t else t) xs) =
        map_option f (find (\<lambda>t. task_id t = i) xs)" for xs
    by (induction xs) (simp_all add: assms)
  then show ?thesis by (simp add: update_where_id_def)
qed

lemma length_update_where_id:
  "length (tasks (update_where_id i f s)) = length (tasks s)"
  by (simp add: update_where_id_def)

lemma nth_update_where_id:
  "k < length (tasks s) \<Longrightarrow>
   tasks (update_where_id i f s) ! k =
     (if task_id (tasks s ! k) = i then f (tasks s ! k) else tasks s ! k)"
  by (simp add: update_where_id_def)

lemma seq_update_where_id:
  "seq (update_where_id i f s) = seq s"
  "last_insert_rowid (update_where_id i f s) = last_insert_rowid s"
  by (simp_all add: update_where_id_def)

text \<open>
  Claim C3, as the code has it. \<^verbatim>\<open>markTaskStarted\<close> sets the status to processing and
  sets \<open>started_at\<close> (and \<open>updated_at\<close>) to the current timestamp on every call,
  whatever \<open>started_at\<close> held before; the other rows are untouched. The claim that
  \<open>started_at\<close> is set only when it is unset fails: a task that is claimed again after
  a failed attempt gets the time of the later claim.
\<close>

theorem markTaskStarted_sets_started_at:
  assumes "failure c = None"
  shows "\<exists>s'. markTaskStarted c taskId s = (Inr (last_insert_rowid s), s') \<and>
           length (tasks s') = length (tasks s) \<and>
           (\<forall>k < length (tasks s).
              (task_id (tasks s ! k) = taskId \<longrightarrow>
                 tasks s' ! k = (tasks s ! k)\<lparr>status := Processing,
                    started_at := Some (current_timestamp c),
                    updated_at := current_timestamp c\<rparr>) \<and>
              (task_id (tasks s ! k) \<noteq> taskId \<longrightarrow> tasks s' ! k = tasks s ! k))"
  using assms
  by (simp add: markTaskStarted_def dbRun_def Let_def nth_update_where_id length_update_where_id
      seq_update_where_id)

theorem markTaskStarted_sets_started_at_witness:
  "\<exists>s'. markTaskStarted (ok 9) 1 requeued = (Inr 1, s') \<and>
     map started_at (tasks requeued) = [Some 5] \<and> map started_at (tasks s') = [Some 9] \<and>
     map status (tasks s') = [Processing]"
proof -
  have no_failure: "failure (ok 9) = None" by (simp add: ok_def)
  have before: "map task_id (tasks requeued) = [1]" "map started_at (tasks requeued) = [Some 5]"
    "last_insert_rowid requeued = 1"
    by code_simp+
  from markTaskStarted_sets_started_at[OF no_failure, of 1 requeued] before(3)
  obtain s' where s': "markTaskStarted (ok 9) 1 requeued = (Inr 1, s')"
    "length (tasks s') = length (tasks requeued)"
    and rows: "\<forall>k < length (tasks requeued).
      (task_id (tasks requeued ! k) = 1 \<longrightarrow>
         tasks s' ! k = (tasks requeued ! k)\<lparr>status := Processing,
            started_at := Some (current_timestamp (ok 9)),
            updated_at := current_timestamp (ok 9)\<rparr>) \<and>
      (task_id (tasks requeued ! k) \<noteq> 1 \<longrightarrow> tasks s' ! k = tasks requeued ! k)"
    by auto
  from before(1) obtain r where r: "tasks requeued = [r]" "task_id r = 1" by auto
  with rows have "tasks s' ! 0 = r\<lparr>status := Processing,
      started_at := Some (current_timestamp (ok 9)), updated_at := current_timestamp (ok 9)\<rparr>"
    by simp
  moreover from s'(2) r(1) obtain r' where "tasks s' = [r']" by (cases "tasks s'") auto
  ultimately have "map started_at (tasks s') = [Some 9]" "map status (tasks s') = [Processing]"
    by (simp_all add: ok_def)
  with s'(1) before(2) show ?thesis by (intro exI[of _ s']) simp
qed

theorem started_at_overwritten:
  "map status (tasks requeued) = [Pending] \<and>
   map started_at (tasks claimed) = [Some 5] \<and>
   map started_at (tasks claimed_again) = [Some 9] \<and>
   map started_at (tasks claimed_again) \<noteq> map started_at (tasks claimed)"
  by code_simp

text \<open>
  Claim C4, as the code has it. \<^verbatim>\<open>markTaskCompleted\<close> sets the status to completed and
  sets \<open>completed_at\<close> (and \<open>updated_at\<close>) to the current timestamp on every call. Called
  on a task that is already completed it leaves the status as it is and overwrites
  \<open>completed_at\<close> with the time of this call: the claim that the second call does not
  change \<open>completed_at\<close> fails as soon as the clock has moved on.
\<close>

theorem markTaskCompleted_sets_completed_at:
  assumes "failure c = None"
  shows "\<exists>s'. markTaskCompleted c taskId s = (Inr (last_insert_rowid s), s') \<and>
           length (tasks s') = length (tasks s) \<and>
           (\<forall>k < length (tasks s).
              (task_id (tasks s ! k) = taskId \<longrightarrow>
                 tasks s' ! k = (tasks s ! k)\<lparr>status := Completed,
                    completed_at := Some (current_timestamp c),
                    updated_at := current_timestamp c\<rparr>) \<and>
              (task_id (tasks s ! k) \<noteq> taskId \<longrightarrow> tasks s' ! k = tasks s ! k))"
  using assms
  by (simp add: markTaskCompleted_def dbRun_def Let_def nth_update_where_id length_update_where_id
      seq_update_where_id)

theorem markTaskCompleted_sets_completed_at_witness:
  "\<exists>s'. markTaskCompleted (ok 12) 1 finished = (Inr 1, s') \<and>
     map status (tasks finished) = [Completed] \<and>
     map completed_at (tasks finished) = [Some 7] \<and>
     map completed_at (tasks s') = [Some 12] \<and> map status (tasks s') = [Completed]"
proof -
  have no_failure: "failure (ok 12) = None" by (simp add: ok_def)
  have before: "map task_id (tasks finished) = [1]" "map completed_at (tasks finished) = [Some 7]"
    "last_insert_rowid finished = 1" "map status (tasks finished) = [Completed]"
    by code_simp+
  from markTaskCompleted_sets_completed_at[OF no_failure, of 1 finished] before(3)
  obtain s' where s': "markTaskCompleted (ok 12) 1 finished = (Inr 1, s')"
    "length (tasks s') = length (tasks finished)"
    and rows: "\<forall>k < length (tasks finished).
      (task_id (tasks finished ! k) = 1 \<longrightarrow>
         tasks s' ! k = (tasks finished ! k)\<lparr>status := Completed,
            completed_at := Some (current_timestamp (ok 12)),
            updated_at := current_timestamp (ok 12)\<rparr>) \<and>
      (task_id (tasks finished ! k) \<noteq> 1 \<longrightarrow> tasks s' ! k = tasks finished ! k)"
    by auto
  from before(1) obtain r where r: "tasks finished = [r]" "task_id r = 1" by auto
  with rows have "tasks s' ! 0 = r\<lparr>status := Completed,
      completed_at := Some (current_timestamp (ok 12)), updated_at := current_timestamp (ok 12)\<rparr>"
    by simp
  moreover from s'(2) r(1) obtain r' where "tasks s' = [r']" by (cases "tasks s'") auto
  ultimately have "map completed_at (tasks s') = [Some 12]" "map status (tasks s') = [Completed]"
    by (simp_all add: ok_def)
  with s'(1) before(2,4) show ?thesis by (intro exI[of _ s']) simp
qed

theorem completed_at_overwritten:
  "map status (tasks finished) = [Completed] \<and>
   map completed_at (tasks finished) = [Some 7] \<and>
   map status (tasks finished_again) = [Completed] \<and>
   map completed_at (tasks finished_again) = [Some 12] \<and>
   map completed_at (tasks finished_again) \<noteq> map completed_at (tasks finished)"
  by code_simp

text \<open>
  Claim C5, as the code has it. \<^verbatim>\<open>incrementRetryCount\<close> on a task that is in the
  table, the driver not failing. The table is changed by one UPDATE statement, which
  adds one to \<open>retry_count\<close>, stores the message and sets the status to pending, all
  three on the same row at once, and touches no other row. The value returned is not
  that statement's: it is the \<open>retry_count\<close> that a second statement, \<^verbatim>\<open>getTask\<close>,
  finds in the table as it is by then, after whatever the process ran between the two
  awaits. It is the count that the UPDATE wrote when nothing ran in between, or nothing
  that changed the count of the row. The claim that the value returned is always the
  one this increment produced fails: when another execution of the same task records
  a failure in between, the value returned is one more.

  The driver hands the count to JavaScript as a double, which is the stored integer as
  long as that is at most \<open>2 ^ 53\<close> in absolute value: the value returned is stated for
  such counts.
\<close>

theorem incrementRetryCount_reads_back:
  assumes "failure c1 = None" and "failure c2 = None"
    and "find (\<lambda>t. task_id t = taskId) (tasks s) = Some t"
  shows "\<exists>n s1. increment_update c1 taskId msg s = (Inr n, s1) \<and>
           find (\<lambda>t. task_id t = taskId) (tasks s1) =
             Some (t\<lparr>retry_count := retry_count t + 1, status := Pending,
                     error_message := msg, updated_at := current_timestamp c1\<rparr>) \<and>
           length (tasks s1) = length (tasks s) \<and>
           (\<forall>k < length (tasks s).
              (task_id (tasks s ! k) = taskId \<longrightarrow>
                 tasks s1 ! k = (tasks s ! k)\<lparr>retry_count := retry_count (tasks s ! k) + 1,
                    status := Pending, error_message := msg,
                    updated_at := current_timestamp c1\<rparr>) \<and>
              (task_id (tasks s ! k) \<noteq> taskId \<longrightarrow> tasks s1 ! k = tasks s ! k)) \<and>
           (\<forall>meanwhile t'.
              find (\<lambda>t. task_id t = taskId) (tasks (meanwhile s1)) = Some t' \<and>
              \<bar>retry_count t'\<bar> \<le> 2 ^ 53 \<longrightarrow>
                incrementRetryCount c1 meanwhile c2 taskId msg s =
                  (Inr (retry_count t'), meanwhile s1)) \<and>
           (\<forall>meanwhile t'.
              find (\<lambda>t. task_id t = taskId) (tasks (meanwhile s1)) = Some t' \<and>
              retry_count t' = retry_count t + 1 \<and> \<bar>retry_count t + 1\<bar> \<le> 2 ^ 53 \<longrightarrow>
                fst (incrementRetryCount c1 meanwhile c2 taskId msg s) =
                  Inr (retry_count t + 1)) \<and>
           (\<bar>retry_count t + 1\<bar> \<le> 2 ^ 53 \<longrightarrow>
              incrementRetryCount c1 id c2 taskId msg s = (Inr (retry_count t + 1), s1))"
  using assms
  by (auto simp: incrementRetryCount_def increment_update_def read_retry_count_def getTask_def
      row_of_def dbGet_def dbRun_def Let_def nth_update_where_id find_update_where_id
      length_update_where_id)

theorem incrementRetryCount_reads_back_witness:
  "\<exists>s'. incrementRetryCount (ok 6) id (ok 6) 1 (Some ''boom'') claimed = (Inr 1, s') \<and>
     map retry_count (tasks claimed) = [0] \<and> map status (tasks claimed) = [Processing] \<and>
     map retry_count (tasks s') = [1] \<and> map status (tasks s') = [Pending] \<and>
     map error_message (tasks s') = [Some ''boom'']"
proof -
  have no_failure: "failure (ok 6) = None" by (simp add: ok_def)
  obtain t where t: "find (\<lambda>t. task_id t = 1) (tasks claimed) = Some t" "tasks claimed = [t]"
    "retry_count t = 0" "status t = Processing" "task_id t = 1"
    by (simp add: claimed_def inserted_def new_task_def markTaskStarted_def dbRun_def Let_def
        ok_def update_where_id_def)
  from incrementRetryCount_reads_back[OF no_failure no_failure t(1), of "Some ''boom''"]
  obtain n s' where s': "increment_update (ok 6) 1 (Some ''boom'') claimed = (Inr n, s')"
    "length (tasks s') = length (tasks claimed)"
    and rows: "\<forall>k < length (tasks claimed).
      (task_id (tasks claimed ! k) = 1 \<longrightarrow>
         tasks s' ! k = (tasks claimed ! k)\<lparr>retry_count := retry_count (tasks claimed ! k) + 1,
            status := Pending, error_message := Some ''boom'',
            updated_at := current_timestamp (ok 6)\<rparr>) \<and>
      (task_id (tasks claimed ! k) \<noteq> 1 \<longrightarrow> tasks s' ! k = tasks claimed ! k)"
    and alone: "\<bar>retry_count t + 1\<bar> \<le> 2 ^ 53 \<longrightarrow>
      incrementRetryCount (ok 6) id (ok 6) 1 (Some ''boom'') claimed = (Inr (retry_count t + 1), s')"
    by blast
  from alone t(3) have returned:
    "incrementRetryCount (ok 6) id (ok 6) 1 (Some ''boom'') claimed = (Inr 1, s')"
    by simp
  from rows t have "tasks s' ! 0 = t\<lparr>retry_count := retry_count t + 1, status := Pending,
      error_message := Some ''boom'', updated_at := current_timestamp (ok 6)\<rparr>"
    by simp
  moreover from s'(2) t(2) obtain r' where "tasks s' = [r']" by (cases "tasks s'") auto
  ultimately have "map retry_count (tasks s') = [1]" "map status (tasks s') = [Pending]"
    "map error_message (tasks s') = [Some ''boom'']"
    using t(3) by simp_all
  with returned t show ?thesis by (intro exI[of _ s']) simp
qed

text \<open>
  When the row is gone by the time of \<^verbatim>\<open>getTask\<close>, reading \<^verbatim>\<open>retry_count\<close> of
  \<^verbatim>\<open>undefined\<close> raises.
\<close>

lemma incrementRetryCount_row_gone:
  assumes "failure c1 = None" and "failure c2 = None"
    and "find (\<lambda>t. task_id t = taskId) (tasks (meanwhile (snd (increment_update c1 taskId msg s)))) = None"
  shows "fst (incrementRetryCount c1 meanwhile c2 taskId msg s) = Inl TypeError"
  using assms
  by (simp add: incrementRetryCount_def increment_update_def read_retry_count_def getTask_def
      row_of_def dbGet_def dbRun_def Let_def)

theorem retry_count_read_after_another_increment:
  "map retry_count (tasks claimed) = [0] \<and>
   map retry_count (tasks (snd (increment_update (ok 6) 1 (Some ''boom'') claimed))) = [1] \<and>
   fst (incrementRetryCount (ok 6) (\<lambda>s. snd (increment_update (ok 7) 1 (Some ''bang'') s)) (ok 8)
          1 (Some ''boom'') claimed) = Inr 2 \<and>
   map retry_count (tasks (db (run example_runtime (take 9 racing) racing_service))) = [1] \<and>
   map (\<lambda>x. (task_id (fst x), recording (snd x)))
     (in_flight (run example_runtime (take 9 racing) racing_service)) = [(1, True), (1, False)] \<and>
   console (run example_runtime (take 11 racing) racing_service) =
     console (run example_runtime (take 10 racing) racing_service) @ [Queued_for_retry 1 2 3]"
  by code_simp

section \<open>Payloads\<close>

text \<open>
  Claim C9, as the code has it. The handler is called with the payload and the task
  object of the execution. For a stored payload that is not empty, the payload handed
  over is the value \<^verbatim>\<open>JSON.parse\<close> gives when the text parses, and the stored text
  itself, unchanged, when it does not. A payload that is absent (\<^verbatim>\<open>NULL\<close>) or the empty
  string is falsy, is not parsed, and is handed over as \<^verbatim>\<open>null\<close>: for the empty string,
  which does not parse, the claim that the raw stored payload is passed on fails.
\<close>

theorem handler_payload:
  "(payload t = Some stored \<and> stored \<noteq> [] \<and> JSON_parse rt stored = Some v \<longrightarrow>
      exec_step rt hs c t (Handling h, s, w, out) = call_handler h v t s w out) \<and>
   (payload t = Some stored \<and> stored \<noteq> [] \<and> JSON_parse rt stored = None \<longrightarrow>
      exec_step rt hs c t (Handling h, s, w, out) = call_handler h (JString stored) t s w out) \<and>
   (payload t = None \<or> payload t = Some [] \<longrightarrow>
      exec_step rt hs c t (Handling h, s, w, out) = call_handler h JNull t s w out)"
  by (auto simp: payload_argument_def)

theorem handler_payload_witness:
  "exec_step example_runtime Map.empty (ok 5) (with_payload (Some ''true''))
     (Handling wants_empty_string, inserted, 0, []) =
     call_handler wants_empty_string (JBoolean True) (with_payload (Some ''true'')) inserted 0 [] \<and>
   exec_step example_runtime Map.empty (ok 5) (with_payload (Some ''not json''))
     (Handling wants_empty_string, inserted, 0, []) =
     call_handler wants_empty_string (JString ''not json'') (with_payload (Some ''not json''))
       inserted 0 [] \<and>
   exec_step example_runtime Map.empty (ok 5) (with_payload None)
     (Handling wants_empty_string, inserted, 0, []) =
     call_handler wants_empty_string JNull (with_payload None) inserted 0 []"
proof -
  have parsed: "payload (with_payload (Some ''true'')) = Some ''true'' \<and> ''true'' \<noteq> [] \<and>
      JSON_parse (example_runtime :: nat runtime) ''true'' = Some (JBoolean True)"
    by (simp add: with_payload_def example_runtime_def)
  have raw: "payload (with_payload (Some ''not json'')) = Some ''not json'' \<and> ''not json'' \<noteq> [] \<and>
      JSON_parse (example_runtime :: nat runtime) ''not json'' = None"
    by (simp add: with_payload_def example_runtime_def)
  have absent: "payload (with_payload None) = None \<or> payload (with_payload None) = Some []"
    by (simp add: with_payload_def)
  from parsed
    handler_payload[where t = "with_payload (Some ''true'')" and stored = "''true''"
      and rt = example_runtime and v = "JBoolean True" and hs = Map.empty and c = "ok 5"
      and h = wants_empty_string and s = inserted and w = 0 and out = "[]"]
  have one: "exec_step example_runtime Map.empty (ok 5) (with_payload (Some ''true''))
     (Handling wants_empty_string, inserted, 0, []) =
     call_handler wants_empty_string (JBoolean True) (with_payload (Some ''true'')) inserted 0 []"
    by blast
  from raw
    handler_payload[where t = "with_payload (Some ''not json'')" and stored = "''not json''"
      and rt = example_runtime and hs = Map.empty and c = "ok 5"
      and h = wants_empty_string and s = inserted and w = 0 and out = "[]"]
  have two: "exec_step example_runtime Map.empty (ok 5) (with_payload (Some ''not json''))
     (Handling wants_empty_string, inserted, 0, []) =
     call_handler wants_empty_string (JString ''not json'') (with_payload (Some ''not json''))
       inserted 0 []"
    by blast
  from absent
    handler_payload[where t = "with_payload None"
      and rt = example_runtime and hs = Map.empty and c = "ok 5"
      and h = wants_empty_string and s = inserted and w = 0 and out = "[]"]
  have three: "exec_step example_runtime Map.empty (ok 5) (with_payload None)
     (Handling wants_empty_string, inserted, 0, []) =
     call_handler wants_empty_string JNull (with_payload None) inserted 0 []"
    by blast
  from one two three show ?thesis by (intro conjI)
qed

theorem empty_payload_becomes_null:
  "payload (with_payload (Some [])) = Some [] \<and>
   JSON_parse (example_runtime :: nat runtime) [] = None \<and>
   payload_argument (example_runtime :: nat runtime) (with_payload (Some [])) = JNull \<and>
   payload_argument (example_runtime :: nat runtime) (with_payload (Some [])) \<noteq> JString [] \<and>
   fst (call_handler wants_empty_string (JString []) (with_payload (Some [])) inserted 0 []) =
     Completing \<and>
   fst (exec_step example_runtime Map.empty (ok 5) (with_payload (Some []))
          (Handling wants_empty_string, inserted, 0, [])) = Recording (Some ''no payload'')"
  by (simp add: with_payload_def example_runtime_def payload_argument_def call_handler_def
      wants_empty_string_def)

text \<open>
  Claim C10. \<^verbatim>\<open>addTask\<close> (the INSERT succeeding) appends one pending row with
  \<open>retry_count\<close> 0 and returns its id. For every falsy payload argument, which
  \<^verbatim>\<open>undefined\<close>, \<^verbatim>\<open>null\<close>, \<^verbatim>\<open>false\<close>, \<^verbatim>\<open>0\<close>, \<^verbatim>\<open>NaN\<close> and the empty string all are, the
  stored payload is \<^verbatim>\<open>NULL\<close>, and the handler of that task is later called with the
  payload \<^verbatim>\<open>null\<close>, not with the value provided. For every truthy payload the stored
  payload is its \<^verbatim>\<open>JSON.stringify\<close>.
\<close>

theorem addTask_falsy_payload:
  assumes "failure c = None"
  shows "(\<exists>row. addTask rt c nm prio p maxRetries s =
             (Inr (task_id row), \<lparr>tasks = tasks s @ [row], seq = task_id row, last_insert_rowid = task_id row\<rparr>) \<and>
           name row = nm \<and> status row = Pending \<and> retry_count row = 0 \<and>
           (\<not> truthy p \<longrightarrow>
              payload row = None \<and> payload_argument rt row = JNull \<and>
              exec_step rt hs c' row (Handling h, s', w, out) = call_handler h JNull row s' w out) \<and>
           (truthy p \<longrightarrow> payload row = Some (JSON_stringify rt p))) \<and>
         \<not> truthy JUndefined \<and> \<not> truthy JNull \<and> \<not> truthy (JBoolean False) \<and>
         \<not> truthy (JNumber 0) \<and> \<not> truthy JNaN \<and> \<not> truthy (JString [])"
proof -
  let ?text = "if truthy (if p = JUndefined then JNull else p)
               then Some (JSON_stringify rt (if p = JUndefined then JNull else p)) else None"
  let ?row = "\<lparr>task_id = next_rowid s, name = nm,
      priority = (case prio of None \<Rightarrow> 0 | Some q \<Rightarrow> q), status = Pending, payload = ?text,
      max_retries = (case maxRetries of None \<Rightarrow> 3 | Some m \<Rightarrow> m), retry_count = 0,
      error_message = None, created_at = current_timestamp c, updated_at = current_timestamp c,
      started_at = None, completed_at = None\<rparr>"
  have added: "addTask rt c nm prio p maxRetries s =
      (Inr (task_id ?row), \<lparr>tasks = tasks s @ [?row], seq = task_id ?row, last_insert_rowid = task_id ?row\<rparr>)"
    using assms by (simp add: addTask_def dbRun_def insert_task_def Let_def)
  have defined: "p \<noteq> JUndefined" if "truthy p"
    using that by auto
  show ?thesis
    by (intro conjI exI[of _ "?row"] impI) (simp_all add: added payload_argument_def defined)
qed

theorem addTask_falsy_payload_witness:
  "map payload (tasks (snd (addTask example_runtime (ok 3) ''email'' (Some 5) (JNumber 0) None empty_store))) = [None] \<and>
   map payload (tasks (snd (addTask example_runtime (ok 3) ''email'' (Some 5) (JString []) None empty_store))) = [None] \<and>
   map payload (tasks (snd (addTask example_runtime (ok 3) ''email'' (Some 5) (JBoolean False) None empty_store))) = [None] \<and>
   map payload (tasks (snd (addTask example_runtime (ok 3) ''email'' (Some 5) (JBoolean True) None empty_store))) = [Some ''true'']"
proof -
  have no_failure: "failure (ok 3) = None" by (simp add: ok_def)
  have stored: "map payload (tasks (snd (addTask example_runtime (ok 3) ''email'' (Some 5) p None empty_store))) =
      [if truthy p then Some (JSON_stringify (example_runtime :: nat runtime) p) else None]" for p
  proof -
    from addTask_falsy_payload[OF no_failure, of example_runtime "''email''" "Some 5" p None empty_store]
    obtain row where row: "addTask example_runtime (ok 3) ''email'' (Some 5) p None empty_store =
        (Inr (task_id row), \<lparr>tasks = tasks empty_store @ [row], seq = task_id row, last_insert_rowid = task_id row\<rparr>)"
      "\<not> truthy p \<longrightarrow> payload row = None"
      "truthy p \<longrightarrow> payload row = Some (JSON_stringify (example_runtime :: nat runtime) p)"
      by blast
    then show ?thesis by (simp add: empty_store_def)
  qed
  show ?thesis
    unfolding stored by (simp add: example_runtime_def)
qed

section \<open>One execution from start to end\<close>

lemma next_await_settled:
  "settled ph \<Longrightarrow> next_await rt hs io t (ph, s, w, out) = (ph, s, w, out)"
  by (cases ph) (simp_all add: next_await_def)

lemma funpow_next_await_settled:
  "settled ph \<Longrightarrow> (next_await rt hs io t ^^ n) (ph, s, w, out) = (ph, s, w, out)"
  by (induction n) (simp_all add: next_await_settled)

lemma record_failure_steps:
  "(next_await rt hs io t ^^ (3 + n)) (Recording m, s, w, out) = record_failure io t m s w out"
proof -
  have three: "(next_await rt hs io t ^^ 3) (Recording m, s, w, out) = record_failure io t m s w out"
    and fin: "settled (fst (record_failure io t m s w out))"
    by (auto simp: eval_nat_numeral funpow_Suc_right next_await_def record_failure_def
        incrementRetryCount_def Let_def
        simp del: funpow.simps split: prod.splits sum.splits)
  have "(next_await rt hs io t ^^ (3 + n)) x = (next_await rt hs io t ^^ n) ((next_await rt hs io t ^^ 3) x)" for x
    by (metis add.commute comp_apply funpow_add)
  with three fin show ?thesis
    by (metis funpow_next_await_settled prod.collapse)
qed

lemma catch_error_steps:
  "(next_await rt hs io t ^^ (3 + n)) (catch_error t e s w out) = catch_block io t e s w out"
  by (cases e) (simp_all add: record_failure_steps funpow_next_await_settled del: funpow.simps)

lemma executeTask_eq_direct:
  "executeTask rt hs io t s w out = executeTask_direct rt hs io t s w out"
proof -
  let ?F = "next_await rt hs io t"
  have c5: "(?F ^^ 5) (catch_error t e s1 w1 out1) = catch_block io t e s1 w1 out1" for e s1 w1 out1
    using catch_error_steps[where n=2 and rt=rt and hs=hs and io=io and t=t] by simp
  have c4: "(?F ^^ 4) (catch_error t e s1 w1 out1) = catch_block io t e s1 w1 out1" for e s1 w1 out1
    using catch_error_steps[where n=1 and rt=rt and hs=hs and io=io and t=t] by simp
  have c3: "(?F ^^ 3) (catch_error t e s1 w1 out1) = catch_block io t e s1 w1 out1" for e s1 w1 out1
    using catch_error_steps[where n=0 and rt=rt and hs=hs and io=io and t=t] by simp
  have s3: "(?F ^^ 3) (Finished, s1, w1, out1) = (Finished, s1, w1, out1)" for s1 w1 out1
    by (simp add: funpow_next_await_settled)
  have step6: "(?F ^^ 6) x = (?F ^^ 5) (?F x)"
    and step5: "(?F ^^ 5) x = (?F ^^ 4) (?F x)"
    and step4: "(?F ^^ 4) x = (?F ^^ 3) (?F x)" for x
    by (simp_all add: eval_nat_numeral funpow_Suc_right del: funpow.simps)
  obtain r1 s1 where started: "markTaskStarted (on_markTaskStarted io) (task_id t) s = (r1, s1)"
    by force
  let ?out1 = "out @ [Processing_task (task_id t) (name t) (priority t)]"
  show ?thesis
  proof (cases r1)
    case (Inl m)
    with started have "?F (Starting, s, w, out) = catch_error t (With_message m) s1 w out"
      by (simp add: next_await_def)
    with started Inl show ?thesis
      unfolding executeTask_def executeTask_direct_def step6 by (simp only: c5) simp
  next
    case (Inr n)
    show ?thesis
    proof (cases "lookup_handler rt hs (name t)")
      case None
      with started Inr have "?F (Starting, s, w, out) =
          catch_error t (With_message (''No handler registered for task type: '' @ name t)) s1 w ?out1"
        by (simp add: next_await_def)
      with started Inr None show ?thesis
        unfolding executeTask_def executeTask_direct_def step6 by (simp only: c5) simp
    next
      case (Some h)
      with started Inr have first: "?F (Starting, s, w, out) = (Handling h, s1, w, ?out1)"
        by (simp add: next_await_def)
      obtain oc w1 where called: "h (payload_argument rt t) t w = (oc, w1)" by force
      show ?thesis
      proof (cases oc)
        case (Rejected e)
        with called have "?F (Handling h, s1, w, ?out1) = catch_error t e s1 w1 ?out1"
          by (simp add: next_await_def call_handler_def)
        with started Inr Some called Rejected first show ?thesis
          unfolding executeTask_def executeTask_direct_def step6 step5 by (simp only: c4) simp
      next
        case Resolved
        with called have second: "?F (Handling h, s1, w, ?out1) = (Completing, s1, w1, ?out1)"
          by (simp add: next_await_def call_handler_def)
        obtain r2 s2 where compl: "markTaskCompleted (on_markTaskCompleted io) (task_id t) s1 = (r2, s2)"
          by force
        show ?thesis
        proof (cases r2)
          case (Inl m)
          with compl have "?F (Completing, s1, w1, ?out1) = catch_error t (With_message m) s2 w1 ?out1"
            by (simp add: next_await_def)
          with started Inr Some called Resolved first second compl Inl show ?thesis
            unfolding executeTask_def executeTask_direct_def step6 step5 step4
            by (simp only: c3) simp
        next
          case (Inr k)
          with compl have "?F (Completing, s1, w1, ?out1) =
              (Finished, s2, w1, ?out1 @ [Task_completed (task_id t)])"
            by (simp add: next_await_def)
          with started \<open>r1 = Inr n\<close> Some called Resolved first second compl Inr show ?thesis
            unfolding executeTask_def executeTask_direct_def step6 step5 step4 by (simp add: s3)
        qed
      qed
    qed
  qed
qed

lemma record_failure_settled: "settled (fst (record_failure io t m s w out))"
  by (auto simp: record_failure_def Let_def split: prod.splits sum.splits)

lemma catch_block_settled: "settled (fst (catch_block io t e s w out))"
  by (cases e) (simp_all add: record_failure_settled)

lemma executeTask_settled: "settled (fst (executeTask rt hs io t s w out))"
  unfolding executeTask_eq_direct executeTask_direct_def
  by (auto simp: Let_def catch_block_settled simp del: catch_block.simps
      split: prod.splits sum.splits option.splits outcome.splits)
section \<open>Failed attempts\<close>










lemma read_retry_count_ok:
  "failure c = None \<Longrightarrow> row_of i s = Some r \<Longrightarrow> read_retry_count c i s = Inr (retry_count r)"
  by (simp add: read_retry_count_def getTask_def dbGet_def)











text \<open>
  A task whose name is not registered but is a member of \<^verbatim>\<open>Object.prototype\<close> is
  not stopped by the test for a missing handler: the inherited member is called. With
  \<^verbatim>\<open>toString\<close>, which returns, the task is marked completed.
\<close>

lemma inherited_member_is_found:
  "hs nm = None \<Longrightarrow> nm \<in> set Object_prototype_names \<Longrightarrow>
   lookup_handler rt hs nm = Some (inherited rt nm)"
  by (simp add: lookup_handler_def)

lemma unregistered_toString_completes:
  "fst toString_executed = Finished \<and>
   map status (tasks (fst (snd toString_executed))) = [Completed] \<and>
   map retry_count (tasks (fst (snd toString_executed))) = [0] \<and>
   map error_message (tasks (fst (snd toString_executed))) = [None]"
  by (simp add: toString_executed_def executeTask_eq_direct executeTask_direct_def
      toString_task_def new_task_def all_ok_def ok_def markTaskStarted_def markTaskCompleted_def
      dbRun_def Let_def update_where_id_def lookup_handler_def Object_prototype_names_def
      example_runtime_def)





text \<open>
  An error of the driver in the catch block: the handler has failed, the UPDATE of
  \<^verbatim>\<open>incrementRetryCount\<close> is rejected, and the task stays in the status processing, in
  which no poll finds it.
\<close>

lemma rejected_record_leaves_processing:
  "map (\<lambda>r. (status r, retry_count r, error_message r)) (tasks (fst (snd record_rejected))) =
     [(Processing, 0, None)] \<and>
   select_pending 10 (fst (snd record_rejected)) = [] \<and>
   snd (snd (snd record_rejected)) = [Processing_task 1 ''job'' 0, Task_failed 1 ''boom'']"
  by code_simp
section \<open>The retry ledger under interleaved executions\<close>











































section \<open>The retry and exhaustion flows\<close>

























text \<open>
  What a handler raises need not be an error with a message. A value that has no
  message is recorded with the message \<^verbatim>\<open>NULL\<close>. \<^verbatim>\<open>null\<close> and \<^verbatim>\<open>undefined\<close> are not
  recorded at all: reading their message raises in the catch block, and that error
  leaves \<^verbatim>\<open>executeTask\<close> with the task in the status processing.
\<close>

lemma handler_raises_no_error:
  "h (payload_argument rt t) t w = (Rejected Without_message, w') \<Longrightarrow>
     exec_step rt hs c t (Handling h, s, w, out) =
       (Recording None, s, w', out @ [Task_failed (task_id t) ''undefined''])"
  "h (payload_argument rt t) t w = (Rejected Null_or_undefined, w') \<Longrightarrow>
     exec_step rt hs c t (Handling h, s, w, out) = (Crashed TypeError, s, w', out)"
  by (simp_all add: call_handler_def)




end
